theory Spec2Isabelle
  imports Main "HOL-Library.Stream"
begin

section \<open>The useStopwatch hook\<close>

text \<open>
  The development embeds \<^verbatim>\<open>src/stopwatch/useStopwatch.ts\<close>. The hook keeps three pieces of
  React state (\<^verbatim>\<open>stopwatch\<close>, \<^verbatim>\<open>runtime\<close>, \<^verbatim>\<open>isRunning\<close>) and returns closures over them.

  Modelling decisions:
  \<^item> Timestamps are the integral millisecond counts of \<^verbatim>\<open>Date.now()\<close>; sums and differences of
    them are exact in a JavaScript number, so they are modelled as \<open>int\<close>.
  \<^item> The clock is the stream of the values that successive calls of \<^verbatim>\<open>Date.now()\<close> return.
    Every function that may read the clock takes the stream and returns what is left of it,
    so the number of reads a call makes is part of the model.
  \<^item> The returned functions are closures over the \<^verbatim>\<open>runtime\<close> and \<^verbatim>\<open>isRunning\<close> of the render that
    built them, and the setters (\<^verbatim>\<open>setRuntime\<close>, \<^verbatim>\<open>setIsRunning\<close>, \<^verbatim>\<open>setStopwatch\<close>) are called
    with plain values. So all the calls made from one render read the state of that render,
    whatever the earlier calls have set, and of two updates of one field the later one wins
    when the next render commits them. \<open>start\<close>, \<open>stop\<close>, \<open>startStop\<close>, \<open>reset\<close> and \<open>tick\<close>
    give the state that a single call from a render leaves once committed; \<open>updates\<close>,
    \<open>handler\<close>, \<open>render\<close> and \<open>renders\<close> give any number of calls from each render.
  \<^item> The \<^verbatim>\<open>onStop\<close> callback is a parameter of the hook; the model records each invocation
    with its argument.
\<close>

subsection \<open>State and clock\<close>

type_synonym clock = "int stream"

definition Date_now :: "clock \<Rightarrow> int \<times> clock" where
  "Date_now clk = (shd clk, stl clk)"

record hook_state =
  stopwatch :: int
  runtime :: "int list"
  isRunning :: bool

text \<open>The three \<^verbatim>\<open>useState\<close> initial values.\<close>

definition initial :: hook_state where
  "initial = \<lparr>stopwatch = 0, runtime = [], isRunning = False\<rparr>"

text \<open>Reading a JavaScript array: an index past the end gives \<^verbatim>\<open>undefined\<close>, here \<open>None\<close>.\<close>

definition index :: "int list \<Rightarrow> nat \<Rightarrow> int option" where
  "index xs i = (if i < length xs then Some (xs ! i) else None)"

subsection \<open>split\<close>

text \<open>
  The loop of \<^verbatim>\<open>split\<close>, from index \<open>i\<close> with the running total \<open>totalTime\<close>. The test
  \<^verbatim>\<open>if (next)\<close> is a truthiness test: it fails for \<^verbatim>\<open>undefined\<close> and for the number 0, and in
  both cases the body reads the clock.
\<close>

function split_loop :: "int list \<Rightarrow> nat \<Rightarrow> int \<Rightarrow> clock \<Rightarrow> int \<times> clock" where
  "split_loop rt i totalTime clk =
     (if i < length rt then
        (let curr = rt ! i; nxt = index rt (i + 1) in
           (case nxt of
              Some n \<Rightarrow>
                if n \<noteq> 0 then split_loop rt (i + 2) (totalTime + (n - curr)) clk
                else (let (now, clk') = Date_now clk
                      in split_loop rt (i + 2) (totalTime + (now - curr)) clk')
            | None \<Rightarrow>
                (let (now, clk') = Date_now clk
                 in split_loop rt (i + 2) (totalTime + (now - curr)) clk')))
      else (totalTime, clk))"
  by pat_completeness auto
termination
  by (relation "measure (\<lambda>(rt, i, totalTime, clk). length rt - i)") auto

declare split_loop.simps [simp del]

definition split :: "hook_state \<Rightarrow> clock \<Rightarrow> int \<times> clock" where
  "split s clk = split_loop (runtime s) 0 0 clk"

subsection \<open>The commands\<close>

definition startStop :: "hook_state \<Rightarrow> clock \<Rightarrow> hook_state \<times> clock" where
  "startStop s clk =
     (let (now, clk') = Date_now clk
      in (s\<lparr>runtime := runtime s @ [now], isRunning := \<not> isRunning s\<rparr>, clk'))"

definition start :: "hook_state \<Rightarrow> clock \<Rightarrow> hook_state \<times> clock" where
  "start s clk =
     (if \<not> isRunning s then
        (let (now, clk') = Date_now clk
         in (s\<lparr>runtime := runtime s @ [now], isRunning := True\<rparr>, clk'))
      else (s, clk))"

text \<open>\<^verbatim>\<open>stop\<close> also returns the arguments of the \<^verbatim>\<open>onStop\<close> calls it made, in order.\<close>

definition stop :: "hook_state \<Rightarrow> clock \<Rightarrow> hook_state \<times> int list \<times> clock" where
  "stop s clk =
     (if isRunning s then
        (let (t, clk') = split s clk
         in (s\<lparr>isRunning := False\<rparr>, [t], clk'))
      else (s, [], clk))"

definition reset :: "hook_state \<Rightarrow> hook_state" where
  "reset s = s\<lparr>stopwatch := 0, runtime := [], isRunning := False\<rparr>"

text \<open>The body of the interval callback installed by \<^verbatim>\<open>useEffect\<close>.\<close>

definition tick :: "hook_state \<Rightarrow> clock \<Rightarrow> hook_state \<times> clock" where
  "tick s clk =
     (if isRunning s then
        (let (t, clk') = split s clk in (s\<lparr>stopwatch := t\<rparr>, clk'))
      else (s, clk))"

subsection \<open>Sequences of calls\<close>

text \<open>
  A client of the hook calls the returned functions one after the other. What it can
  observe is the value each \<^verbatim>\<open>split()\<close> returns and each invocation of \<^verbatim>\<open>onStop\<close>.

  \<open>exec\<close> is one call together with the commit of its updates, and \<open>run\<close> is a sequence of
  calls in which every call is made from a render of its own: the updates of a call are
  committed, and the closures rebuilt, before the next call (\<open>run_renders\<close> below). It says
  nothing about two calls made from the same render.
\<close>

datatype op = Start | Stop | Both | Reset | Split | Tick

datatype event = OnStop int | SplitResult int

fun exec :: "op \<Rightarrow> hook_state \<Rightarrow> clock \<Rightarrow> hook_state \<times> event list \<times> clock" where
  "exec Start s clk = (let (s', clk') = start s clk in (s', [], clk'))"
| "exec Stop s clk = (let (s', ts, clk') = stop s clk in (s', map OnStop ts, clk'))"
| "exec Both s clk = (let (s', clk') = startStop s clk in (s', [], clk'))"
| "exec Reset s clk = (reset s, [], clk)"
| "exec Split s clk = (let (t, clk') = split s clk in (s, [SplitResult t], clk'))"
| "exec Tick s clk = (let (s', clk') = tick s clk in (s', [], clk'))"

fun run :: "op list \<Rightarrow> hook_state \<Rightarrow> clock \<Rightarrow> hook_state \<times> event list \<times> clock" where
  "run [] s clk = (s, [], clk)"
| "run (c # cs) s clk =
     (let (s', es, clk') = exec c s clk;
          (s'', es', clk'') = run cs s' clk'
      in (s'', es @ es', clk''))"

subsection \<open>Calls made from one render\<close>

text \<open>The three setters, each with the plain value it is called with.\<close>

datatype update = SetStopwatch int | SetRuntime "int list" | SetIsRunning bool

fun apply_update :: "update \<Rightarrow> hook_state \<Rightarrow> hook_state" where
  "apply_update (SetStopwatch v) p = p\<lparr>stopwatch := v\<rparr>"
| "apply_update (SetRuntime v) p = p\<lparr>runtime := v\<rparr>"
| "apply_update (SetIsRunning v) p = p\<lparr>isRunning := v\<rparr>"

text \<open>
  What one call does when the render that built its closure had the state \<open>s\<close>: the setter
  calls it makes, in order, the events, and the clock that is left. Every read of
  \<^verbatim>\<open>isRunning\<close> and \<^verbatim>\<open>runtime\<close> is a read of \<open>s\<close>.
\<close>

fun updates :: "op \<Rightarrow> hook_state \<Rightarrow> clock \<Rightarrow> update list \<times> event list \<times> clock" where
  "updates Start s clk =
     (if \<not> isRunning s then
        (let (now, clk') = Date_now clk
         in ([SetRuntime (runtime s @ [now]), SetIsRunning True], [], clk'))
      else ([], [], clk))"
| "updates Stop s clk =
     (if isRunning s then
        (let (t, clk') = split s clk
         in ([SetIsRunning False], [OnStop t], clk'))
      else ([], [], clk))"
| "updates Both s clk =
     (let (now, clk') = Date_now clk
      in ([SetRuntime (runtime s @ [now]), SetIsRunning (\<not> isRunning s)], [], clk'))"
| "updates Reset s clk = ([SetStopwatch 0, SetRuntime [], SetIsRunning False], [], clk)"
| "updates Split s clk = (let (t, clk') = split s clk in ([], [SplitResult t], clk'))"
| "updates Tick s clk =
     (if isRunning s then
        (let (t, clk') = split s clk in ([SetStopwatch t], [], clk'))
      else ([], [], clk))"

text \<open>
  The calls \<open>cs\<close> made one after the other from the render with state \<open>s\<close>; \<open>p\<close> is the state
  that the next render will have, as the setter calls so far have left it.
\<close>

fun handler :: "op list \<Rightarrow> hook_state \<Rightarrow> hook_state \<Rightarrow> clock \<Rightarrow> hook_state \<times> event list \<times> clock" where
  "handler [] s p clk = (p, [], clk)"
| "handler (c # cs) s p clk =
     (let (us, es, clk') = updates c s clk;
          (p', es', clk'') = handler cs s (fold apply_update us p) clk'
      in (p', es @ es', clk''))"

text \<open>One render: the calls made from it, then the commit that gives the next state.\<close>

definition render :: "op list \<Rightarrow> hook_state \<Rightarrow> clock \<Rightarrow> hook_state \<times> event list \<times> clock" where
  "render cs s clk = handler cs s s clk"

fun renders :: "op list list \<Rightarrow> hook_state \<Rightarrow> clock \<Rightarrow> hook_state \<times> event list \<times> clock" where
  "renders [] s clk = (s, [], clk)"
| "renders (b # bs) s clk =
     (let (s', es, clk') = render b s clk;
          (s'', es', clk'') = renders bs s' clk'
      in (s'', es @ es', clk''))"

subsection \<open>The loop as a recursion over pairs\<close>

text \<open>
  The loop visits the array two entries at a time; \<open>split_pairs\<close> is the same computation
  by recursion on the list, and \<open>split_loop_pairs\<close> shows that the two agree.
\<close>

fun split_pairs :: "int list \<Rightarrow> int \<Rightarrow> clock \<Rightarrow> int \<times> clock" where
  "split_pairs [] t clk = (t, clk)"
| "split_pairs [cur] t clk = (t + (shd clk - cur), stl clk)"
| "split_pairs (cur # n # rest) t clk =
     (if n \<noteq> 0 then split_pairs rest (t + (n - cur)) clk
      else split_pairs rest (t + (shd clk - cur)) (stl clk))"

lemma split_loop_done: "\<not> i < length rt \<Longrightarrow> split_loop rt i t clk = (t, clk)"
  by (subst split_loop.simps) simp

lemma split_loop_last:
  "Suc i = length rt \<Longrightarrow> split_loop rt i t clk = (t + (shd clk - rt ! i), stl clk)"
  by (subst split_loop.simps) (simp add: index_def Date_now_def split_loop_done)

lemma split_loop_closed:
  "Suc i < length rt \<Longrightarrow> rt ! Suc i \<noteq> 0 \<Longrightarrow>
   split_loop rt i t clk = split_loop rt (Suc (Suc i)) (t + (rt ! Suc i - rt ! i)) clk"
  by (subst split_loop.simps) (simp add: index_def)

lemma split_loop_zero:
  "Suc i < length rt \<Longrightarrow> rt ! Suc i = 0 \<Longrightarrow>
   split_loop rt i t clk = split_loop rt (Suc (Suc i)) (t + (shd clk - rt ! i)) (stl clk)"
  by (subst split_loop.simps) (simp add: index_def Date_now_def)

lemma split_loop_pairs: "split_loop rt i t clk = split_pairs (drop i rt) t clk"
proof (induction "length rt - i" arbitrary: i t clk rule: less_induct)
  case less
  consider (finished) "\<not> i < length rt" | (single) "Suc i = length rt" | (pair) "Suc i < length rt"
    by linarith
  then show ?case
  proof cases
    case finished
    then show ?thesis by (simp add: split_loop_done)
  next
    case single
    then have "drop i rt = [rt ! i]"
      by (metis Cons_nth_drop_Suc drop_all lessI order_refl)
    with single show ?thesis by (simp add: split_loop_last)
  next
    case pair
    then have d: "drop i rt = rt ! i # rt ! Suc i # drop (Suc (Suc i)) rt"
      by (simp add: Cons_nth_drop_Suc Suc_lessD)
    have IH: "split_loop rt (Suc (Suc i)) t' clk' = split_pairs (drop (Suc (Suc i)) rt) t' clk'" for t' clk'
      using pair by (intro less) simp
    show ?thesis
    proof (cases "rt ! Suc i = 0")
      case True
      with pair show ?thesis by (simp add: split_loop_zero d IH)
    next
      case False
      with pair show ?thesis by (simp add: split_loop_closed d IH)
    qed
  qed
qed

lemma split_pairs_eq: "split s clk = split_pairs (runtime s) 0 clk"
  by (simp add: split_def split_loop_pairs)

lemmas hook_defs = start_def stop_def startStop_def reset_def tick_def split_pairs_eq
  Date_now_def initial_def Let_def

text \<open>A total that starts from \<open>t + u\<close> is the total from \<open>t\<close>, plus \<open>u\<close>.\<close>

lemma split_pairs_shift:
  "split_pairs xs (t + u) clk = (case split_pairs xs t clk of (a, clk') \<Rightarrow> (a + u, clk'))"
proof (induction xs arbitrary: t clk rule: induct_list012)
  case (3 cur n rest)
  have a: "t + u + (n - cur) = t + (n - cur) + u"
    and b: "t + u + (shd clk - cur) = t + (shd clk - cur) + u"
    by simp_all
  show ?case
    using "3.IH"(1)[of "t + (n - cur)" clk] "3.IH"(1)[of "t + (shd clk - cur)" "stl clk"]
    by (simp add: a b)
qed simp_all

text \<open>A prefix of even length is a sequence of whole pairs, so the loop handles it first.\<close>

lemma split_pairs_append:
  "even (length xs) \<Longrightarrow>
   split_pairs (xs @ ys) t clk = (case split_pairs xs t clk of (a, clk') \<Rightarrow> split_pairs ys a clk')"
  by (induction xs arbitrary: t clk rule: induct_list012) simp_all

subsection \<open>Basic facts about the commands\<close>

lemma run_append:
  "run (xs @ ys) s clk =
     (case run xs s clk of (s', es, clk') \<Rightarrow>
        case run ys s' clk' of (s'', es', clk'') \<Rightarrow> (s'', es @ es', clk''))"
  by (induction xs arbitrary: s clk) (simp_all add: Let_def split: prod.splits)

lemma reset_initial: "reset s = initial"
  by (simp add: reset_def initial_def)

text \<open>
  The two descriptions of a call agree: committing the updates of one call to the state it
  was made from gives \<open>exec\<close>, so \<open>run\<close> is \<open>renders\<close> with one call in each render.
\<close>

lemma exec_updates:
  "exec c s clk = (case updates c s clk of (us, es, clk') \<Rightarrow> (fold apply_update us s, es, clk'))"
  by (cases c) (simp_all add: hook_defs split: prod.splits)

lemma render_single: "render [c] s clk = exec c s clk"
  by (simp add: render_def exec_updates split: prod.splits)

lemma run_renders: "run cs s clk = renders (map (\<lambda>c. [c]) cs) s clk"
  by (induction cs arbitrary: s clk) (simp_all add: render_single del: exec.simps)

lemma handler_append:
  "handler (xs @ ys) s p clk =
     (case handler xs s p clk of (p', es, clk') \<Rightarrow>
        case handler ys s p' clk' of (p'', es', clk'') \<Rightarrow> (p'', es @ es', clk''))"
  by (induction xs arbitrary: p clk) (simp_all add: Let_def split: prod.splits)

lemma renders_append:
  "renders (xs @ ys) s clk =
     (case renders xs s clk of (s', es, clk') \<Rightarrow>
        case renders ys s' clk' of (s'', es', clk'') \<Rightarrow> (s'', es @ es', clk''))"
  by (induction xs arbitrary: s clk) (simp_all add: Let_def split: prod.splits)

text \<open>
  \<^verbatim>\<open>reset\<close> sets all three fields, so when it is the last call of a render the commit gives
  the initial state, whatever the earlier calls of that render have set.
\<close>

lemma render_reset_last:
  "render (b @ [Reset]) s clk = (case render b s clk of (p, es, clk') \<Rightarrow> (initial, es, clk'))"
  by (simp add: render_def handler_append initial_def split: prod.splits)

lemmas render_defs = render_def hook_defs

text \<open>
  \<^verbatim>\<open>stop\<close> calls \<^verbatim>\<open>onStop\<close> and \<^verbatim>\<open>setIsRunning(false)\<close> only: unlike \<^verbatim>\<open>start\<close> and \<^verbatim>\<open>startStop\<close>
  it never calls \<^verbatim>\<open>setRuntime\<close>, so the array is the same after it. Claims C1 to C5 all
  meet this.
\<close>

lemma stop_keeps_runtime: "runtime (fst (stop s clk)) = runtime s"
  by (simp add: stop_def Let_def split: prod.splits)

lemma startStop_appends: "runtime (fst (startStop s clk)) = runtime s @ [shd clk]"
  by (simp add: startStop_def Date_now_def)

section \<open>The claims\<close>

subsection \<open>C1: split after stop\<close>

text \<open>
  Claim C1: when the stopwatch is not running, \<^verbatim>\<open>split()\<close> treats the trailing boundary as
  closed: in every state reached by a \<^verbatim>\<open>stop()\<close> call, later \<^verbatim>\<open>split()\<close> calls return the same
  value however far the clock has advanced, because \<^verbatim>\<open>stop()\<close> stores a closing boundary.

  The code does not do this. \<^verbatim>\<open>stop\<close> stores no boundary (\<open>stop_keeps_runtime\<close>), the array
  keeps its odd length, and \<^verbatim>\<open>split\<close> measures the last start against the clock again at every
  call. With the clock readings 0, 1000, 2000, 3000: \<^verbatim>\<open>start()\<close> at 0, \<^verbatim>\<open>stop()\<close> at 1000 reports
  1000, and the two following \<^verbatim>\<open>split()\<close> calls return 2000 and 3000 instead of 1000 twice.
\<close>

theorem split_after_stop_follows_clock:
  "run [Start, Stop, Split, Split] initial (0 ## 1000 ## 2000 ## sconst 3000) =
     (\<lparr>stopwatch = 0, runtime = [0], isRunning = False\<rparr>,
      [OnStop 1000, SplitResult 2000, SplitResult 3000], sconst 3000)"
  by (simp add: hook_defs)

subsection \<open>C2: the scenario\<close>

text \<open>
  Claim C2: for the clock readings 0, 1000, 1000, 2000, 5000 consumed in order, the sequence
  \<^verbatim>\<open>start(); split(); stop(); start(); split()\<close> makes the first \<^verbatim>\<open>split()\<close> return 1000, the
  \<^verbatim>\<open>stop()\<close> callback report 1000 and the final \<^verbatim>\<open>split()\<close> return 4000.

  On the code the first two values are as claimed, but the final \<^verbatim>\<open>split()\<close> returns 2000.
  Since \<^verbatim>\<open>stop\<close> appended nothing, the second \<^verbatim>\<open>start()\<close> puts its timestamp 2000 at index 1,
  where \<^verbatim>\<open>split\<close> reads it as the end of the interval that began at 0; no interval is open
  for \<^verbatim>\<open>split\<close>, and the fifth reading, 5000, is never consumed.
\<close>

theorem scenario_final_split:
  "run [Start, Split, Stop, Start, Split] initial (0 ## 1000 ## 1000 ## 2000 ## sconst 5000) =
     (\<lparr>stopwatch = 0, runtime = [0, 2000], isRunning = True\<rparr>,
      [SplitResult 1000, OnStop 1000, SplitResult 2000], sconst 5000)"
  by (simp add: hook_defs)

subsection \<open>C3: accumulation across two cycles\<close>

text \<open>
  What the second \<^verbatim>\<open>stop()\<close> of two cycles reports on the code, for a first start at \<open>t0\<close>, a
  first stop \<open>d1\<close> later and a second start at \<open>t1\<close> (not 0): the distance \<open>t1 - t0\<close> between
  the two starts, that is \<open>d1\<close> plus the pause. The clock is not read, so the length of the
  second cycle has no influence.
\<close>

lemma second_stop_general:
  "t1 \<noteq> 0 \<Longrightarrow>
   run [Start, Stop, Start, Stop] initial (t0 ## (t0 + d1) ## t1 ## clk) =
     (\<lparr>stopwatch = 0, runtime = [t0, t1], isRunning = False\<rparr>,
      [OnStop d1, OnStop (t1 - t0)], clk)"
  by (simp add: hook_defs)

text \<open>
  Claim C3: for all durations \<open>d1\<close>, \<open>d2\<close>, after \<^verbatim>\<open>start()\<close>, an advance by \<open>d1\<close>, \<^verbatim>\<open>stop()\<close>,
  \<^verbatim>\<open>start()\<close>, an advance by \<open>d2\<close> and \<^verbatim>\<open>stop()\<close>, the second invocation of the callback
  receives \<open>d1 + d2\<close>, and nothing that includes the pause between the cycles.

  The code does not do this. With \<open>d1 = 1000\<close>, a pause of 1000 and \<open>d2 = 3000\<close> (clock
  readings 0, 1000, 2000 and then 5000) the second invocation receives 2000, which is
  \<open>d1\<close> plus the pause, where the claim has 4000.
\<close>

theorem second_stop_reports_gap:
  "run [Start, Stop, Start, Stop] initial (0 ## 1000 ## 2000 ## sconst 5000) =
     (\<lparr>stopwatch = 0, runtime = [0, 2000], isRunning = False\<rparr>,
      [OnStop 1000, OnStop 2000], sconst 5000)"
  by (simp add: hook_defs)

subsection \<open>C4: parity of the array and the running flag\<close>

text \<open>
  Claim C4: in every state reachable by \<^verbatim>\<open>start()\<close>, \<^verbatim>\<open>stop()\<close>, \<^verbatim>\<open>both()\<close> and \<^verbatim>\<open>reset()\<close> calls,
  the parity of the length of the array matches the running flag: even length means not
  running, odd length means running.

  The code does not keep this invariant: after \<^verbatim>\<open>start()\<close> and \<^verbatim>\<open>stop()\<close> the array has one
  entry and the flag is false.
\<close>

theorem parity_broken_by_stop:
  "fst (run [Start, Stop] initial (0 ## sconst 1000)) =
     \<lparr>stopwatch = 0, runtime = [0], isRunning = False\<rparr> \<and>
   odd (length (runtime (fst (run [Start, Stop] initial (0 ## sconst 1000))))) \<and>
   isRunning (fst (run [Start, Stop] initial (0 ## sconst 1000))) = False"
  by (simp add: hook_defs)

subsection \<open>C5: both against start and stop\<close>

text \<open>
  Claim C5: an alternating sequence of \<^verbatim>\<open>both()\<close> calls from the idle state leaves the same
  array as the matching sequence of \<^verbatim>\<open>start()\<close> and \<^verbatim>\<open>stop()\<close> calls with the same clock
  readings.

  On the code the two differ already for one cycle: \<^verbatim>\<open>both(); both()\<close> with the readings 0
  and 1000 leaves \<open>[0, 1000]\<close>, and \<^verbatim>\<open>start(); stop()\<close> with the same readings leaves \<open>[0]\<close>.
\<close>

theorem both_differs_from_start_stop:
  "runtime (fst (run [Both, Both] initial (0 ## sconst 1000))) = [0, 1000] \<and>
   runtime (fst (run [Start, Stop] initial (0 ## sconst 1000))) = [0]"
  by (simp add: hook_defs)

subsection \<open>C6: one start/stop round trip\<close>

text \<open>
  Claim C6: for every duration \<open>d\<close>, on a fresh hook, \<^verbatim>\<open>start()\<close> followed by a clock advance
  of exactly \<open>d\<close> and \<^verbatim>\<open>stop()\<close> invokes the callback exactly once, with the value \<open>d\<close>, and
  \<^verbatim>\<open>isRunning\<close> is false afterwards.

  As stated the claim fails when both calls are made from the same render: the closure of
  \<^verbatim>\<open>stop\<close> still has \<^verbatim>\<open>isRunning = false\<close>, so it does nothing. With the readings 0 and 1000
  there is no invocation of the callback and the hook is running after the commit.
\<close>

theorem same_render_start_stop:
  "renders [[Start, Stop]] initial (0 ## sconst 1000) =
     (\<lparr>stopwatch = 0, runtime = [0], isRunning = True\<rparr>, [], sconst 1000)"
  by (simp add: render_defs)

text \<open>
  Claim C6, amended: for every duration \<open>d\<close>, on a fresh hook, \<^verbatim>\<open>start()\<close>, then the render
  that commits it, then \<^verbatim>\<open>stop()\<close> called from that render at a clock reading exactly \<open>d\<close>
  later invokes the callback exactly once, with the value \<open>d\<close>, and \<^verbatim>\<open>isRunning\<close> is false
  after the next commit. Here \<open>t0\<close> is the reading at the start and \<open>t0 + d\<close> the reading at
  the stop; the list of events is the single invocation.
\<close>

theorem start_render_stop_round_trip:
  "renders [[Start], [Stop]] initial (t0 ## (t0 + d) ## clk) =
     (\<lparr>stopwatch = 0, runtime = [t0], isRunning = False\<rparr>, [OnStop d], clk)"
  by (simp add: render_defs)

subsection \<open>C7: reset\<close>

text \<open>
  Claim C7: after any sequence of operations, \<^verbatim>\<open>reset()\<close> yields a state where \<^verbatim>\<open>split()\<close> is 0
  and \<^verbatim>\<open>isRunning\<close> is false, and every later sequence of operations behaves as on a freshly
  constructed hook; \<^verbatim>\<open>reset()\<close> has no precondition and always succeeds.

  As stated the claim fails for a call that follows \<^verbatim>\<open>reset()\<close> in the same render, because
  that call still reads the state from before the reset. After \<^verbatim>\<open>start()\<close> at reading 0 and a
  render, \<^verbatim>\<open>reset(); split()\<close> at reading 1000 makes \<^verbatim>\<open>split()\<close> return 1000, where a fresh hook
  returns 0.
\<close>

theorem same_render_reset_split:
  "renders [[Start], [Reset, Split]] initial (0 ## sconst 1000) =
     (\<lparr>stopwatch = 0, runtime = [], isRunning = False\<rparr>, [SplitResult 1000], sconst 1000) \<and>
   renders [[Split]] initial (sconst 1000) =
     (\<lparr>stopwatch = 0, runtime = [], isRunning = False\<rparr>, [SplitResult 0], sconst 1000)"
  by (simp add: render_defs)

text \<open>
  Claim C7, amended: after any sequence of operations, once the render in which \<^verbatim>\<open>reset()\<close>
  was the last call has been committed, \<^verbatim>\<open>split()\<close> is 0 and \<^verbatim>\<open>isRunning\<close> is false, and every
  sequence of operations from then on behaves as on a freshly constructed hook; \<^verbatim>\<open>reset()\<close>
  has no precondition and always succeeds.

  The state \<open>s\<close> and the calls \<open>b\<close> made before \<^verbatim>\<open>reset()\<close> in its render are arbitrary: the
  commit gives the initial state, and \<^verbatim>\<open>reset()\<close> adds no event and reads no clock. The last
  conjunct says it for a whole history: whatever the renders \<open>pre\<close> and the calls \<open>b\<close> did,
  the renders \<open>post\<close> after the reset produce the state and the events that they produce
  from the initial state on the same clock readings.
\<close>

theorem reset_render_restores_initial:
  "render (b @ [Reset]) s clk = (initial, fst (snd (render b s clk)), snd (snd (render b s clk))) \<and>
   fst (split initial clk) = 0 \<and>
   isRunning initial = False \<and>
   renders (pre @ (b @ [Reset]) # post) s0 clk0 =
     (case renders (pre @ [b]) s0 clk0 of (s1, es, clk1) \<Rightarrow>
        case renders post initial clk1 of (s2, es', clk2) \<Rightarrow> (s2, es @ es', clk2))"
  by (simp add: renders_append render_reset_last split: prod.splits) (simp add: hook_defs)

subsection \<open>C8: start twice\<close>

text \<open>
  Claim C8: calling \<^verbatim>\<open>start()\<close> twice in a row leaves the state of a single \<^verbatim>\<open>start()\<close>: the
  second call appends nothing and resets nothing, and every later \<^verbatim>\<open>split()\<close> returns what it
  would return after the first \<^verbatim>\<open>start()\<close> alone.

  As stated the claim fails when both calls are made from the same render: both pass the
  test on \<^verbatim>\<open>isRunning\<close>, and the second \<^verbatim>\<open>setRuntime\<close> replaces the first. With the readings 100
  and 250 the open interval starts at 250, where a single \<^verbatim>\<open>start()\<close> leaves 100.
\<close>

theorem same_render_start_twice:
  "renders [[Start, Start]] initial (100 ## sconst 250) =
     (\<lparr>stopwatch = 0, runtime = [250], isRunning = True\<rparr>, [], sconst 250) \<and>
   renders [[Start]] initial (100 ## sconst 250) =
     (\<lparr>stopwatch = 0, runtime = [100], isRunning = True\<rparr>, [], sconst 250)"
  by (simp add: render_defs)

text \<open>
  Claim C8, amended: calling \<^verbatim>\<open>start()\<close> twice in a row, the second time from the render that
  committed the first, leaves the state of a single \<^verbatim>\<open>start()\<close>: the second call appends
  nothing and resets nothing, and every later \<^verbatim>\<open>split()\<close> returns what it would return after
  the first \<^verbatim>\<open>start()\<close> alone.

  The second call makes no setter call and no event and does not read the clock; so the
  calls \<open>cs\<close> that follow it in its render, and the renders \<open>bs\<close> after that, see the same
  state and the same readings as without it.
\<close>

theorem start_render_start:
  "updates Start (fst (render [Start] s clk)) clk' = ([], [], clk') \<and>
   renders ([Start] # (Start # cs) # bs) s clk = renders ([Start] # cs # bs) s clk"
  by (simp add: render_defs split: prod.splits)

subsection \<open>C9: stop when idle\<close>

text \<open>
  Claim C9: \<^verbatim>\<open>stop()\<close> on a hook that is not running does not invoke the callback, changes no
  field of the state, and does not change what \<^verbatim>\<open>split()\<close> returns at the same clock reading.
\<close>

theorem stop_when_idle:
  assumes "\<not> isRunning s"
  shows "stop s clk = (s, [], clk) \<and> exec Stop s clk = (s, [], clk) \<and>
         split (fst (stop s clk)) clk = split s clk"
  using assms by (simp add: stop_def)

text \<open>An idle state with a history: the one that \<^verbatim>\<open>start(); stop()\<close> leaves.\<close>

theorem stop_when_idle_witness:
  "\<not> isRunning \<lparr>stopwatch = 0, runtime = [0], isRunning = False\<rparr> \<and>
   stop \<lparr>stopwatch = 0, runtime = [0], isRunning = False\<rparr> (sconst 1000) =
     (\<lparr>stopwatch = 0, runtime = [0], isRunning = False\<rparr>, [], sconst 1000)"
  using stop_when_idle [of "\<lparr>stopwatch = 0, runtime = [0], isRunning = False\<rparr>" "sconst 1000"]
  by simp

subsection \<open>C10: a stop boundary that is 0\<close>

text \<open>How a stop boundary 0 gets into the array: \<^verbatim>\<open>both()\<close> ends an interval at clock reading 0.\<close>

lemma both_at_zero:
  "run [Both, Both] initial (0 ## 0 ## clk) =
     (\<lparr>stopwatch = 0, runtime = [0, 0], isRunning = False\<rparr>, [], clk)"
  by (simp add: startStop_def Date_now_def initial_def)

text \<open>
  Claim C10: if an odd-indexed entry of the array is 0, \<^verbatim>\<open>split()\<close> treats that interval as
  still open and adds the clock reading minus its start, not 0 minus its start, because the
  closing timestamp is tested for truthiness.

  For the entry at the odd index \<open>j\<close>: the result of \<^verbatim>\<open>split\<close> is the total \<open>a\<close> of the pairs
  before index \<open>j - 1\<close>, plus the next clock reading minus the start at \<open>j - 1\<close>, plus the total
  \<open>b\<close> of the entries after \<open>j\<close>; and that clock reading is consumed.
\<close>

theorem split_zero_boundary:
  assumes "odd j" and "j < length (runtime s)" and "runtime s ! j = 0"
  shows "split s clk =
     (case split_loop (take (j - 1) (runtime s)) 0 0 clk of (a, clk1) \<Rightarrow>
        case split_loop (drop (Suc j) (runtime s)) 0 0 (stl clk1) of (b, clk2) \<Rightarrow>
          (a + (shd clk1 - runtime s ! (j - 1)) + b, clk2))"
proof -
  let ?rt = "runtime s"
  from assms(1) obtain k where j: "j = Suc k" and k: "even k"
    by (cases j) auto
  have "?rt = take k ?rt @ drop k ?rt"
    by simp
  also have "drop k ?rt = ?rt ! k # ?rt ! j # drop (Suc j) ?rt"
    using assms(2) j by (simp add: Cons_nth_drop_Suc Suc_lessD)
  finally have rt: "?rt = take k ?rt @ ?rt ! k # 0 # drop (Suc j) ?rt"
    using assms(3) by simp
  have len: "even (length (take k ?rt))"
    using assms(2) j k by simp
  have "split s clk = split_pairs (take k ?rt @ ?rt ! k # 0 # drop (Suc j) ?rt) 0 clk"
    using rt by (simp add: split_pairs_eq)
  also have "\<dots> = (case split_pairs (take k ?rt) 0 clk of (a, clk1) \<Rightarrow>
        split_pairs (drop (Suc j) ?rt) (0 + (a + (shd clk1 - ?rt ! k))) (stl clk1))"
    by (simp add: split_pairs_append [OF len])
  also have "\<dots> = (case split_pairs (take k ?rt) 0 clk of (a, clk1) \<Rightarrow>
        case split_pairs (drop (Suc j) ?rt) 0 (stl clk1) of (b, clk2) \<Rightarrow>
          (a + (shd clk1 - ?rt ! k) + b, clk2))"
    by (simp only: split_pairs_shift) (simp split: prod.splits)
  finally show ?thesis
    by (simp add: j split_loop_pairs)
qed

text \<open>
  In the state that \<open>both_at_zero\<close> reaches, an interval from 0 to 0, \<^verbatim>\<open>split()\<close> at clock
  reading 500 returns 500 and not 0.
\<close>

theorem split_zero_boundary_witness:
  "odd (1::nat) \<and> 1 < length (runtime \<lparr>stopwatch = 0, runtime = [0, 0], isRunning = False\<rparr>) \<and>
   runtime \<lparr>stopwatch = 0, runtime = [0, 0], isRunning = False\<rparr> ! 1 = 0 \<and>
   split \<lparr>stopwatch = 0, runtime = [0, 0], isRunning = False\<rparr> (sconst 500) = (500, sconst 500)"
  using split_zero_boundary [of 1 "\<lparr>stopwatch = 0, runtime = [0, 0], isRunning = False\<rparr>" "sconst 500"]
  by (simp add: split_loop_pairs)

end
